theory Spec2Isabelle
  imports Main "HOL-Library.Char_ord" "HOL-Library.AList"
begin

section \<open>JavaScript values\<close>

text \<open>
  The primitive values that field values, reference codes and labels range over.
  Numbers are modelled as integers (no NaN, no fractions), so strict equality
  \<open>===\<close> on primitives is HOL equality.
\<close>

datatype jsval = Undefined | Null | Bool bool | Num int | Str string

fun truthy :: "jsval \<Rightarrow> bool" where
  "truthy Undefined = False"
| "truthy Null = False"
| "truthy (Bool b) = b"
| "truthy (Num n) = (n \<noteq> 0)"
| "truthy (Str s) = (s \<noteq> [])"

text \<open>\<open>a || b\<close> on values.\<close>

definition js_or :: "jsval \<Rightarrow> jsval \<Rightarrow> jsval" where
  "js_or a b = (if truthy a then a else b)"

text \<open>
  A plain object is an association list from property names to values; reading a
  property that is not there gives \<open>undefined\<close>.
\<close>

type_synonym obj = "(string \<times> jsval) list"

definition get_prop :: "obj \<Rightarrow> string \<Rightarrow> jsval" where
  "get_prop ob k = (case map_of ob k of None \<Rightarrow> Undefined | Some v \<Rightarrow> v)"

text \<open>
  \<open>found && e\<close> where \<open>found\<close> is the result of \<open>Array.prototype.find\<close> on a list
  of objects: \<open>undefined\<close> when nothing was found (and \<open>e\<close> is not evaluated),
  otherwise an object, which is truthy, so the value is \<open>e\<close>.
\<close>

definition found_and :: "obj option \<Rightarrow> (obj \<Rightarrow> jsval) \<Rightarrow> jsval" where
  "found_and found e = (case found of None \<Rightarrow> Undefined | Some el \<Rightarrow> e el)"

text \<open>\<open>x || d\<close> for an optional setting \<open>x\<close>, and a destructuring default \<open>{x = d}\<close>.\<close>

definition or_default :: "'a option \<Rightarrow> 'a \<Rightarrow> 'a" where
  "or_default x d = (case x of None \<Rightarrow> d | Some v \<Rightarrow> v)"

text \<open>lodash \<open>upperFirst\<close>, on ASCII letters.\<close>

definition upperFirst :: "string \<Rightarrow> string" where
  "upperFirst s =
     (case s of
        [] \<Rightarrow> []
      | c # cs \<Rightarrow>
          (if CHR ''a'' \<le> c \<and> c \<le> CHR ''z''
           then char_of (of_char c - (32::nat)) # cs
           else c # cs))"


section \<open>Entity metadata (entity/types.ts)\<close>

text \<open>A React component is identified by its name.\<close>

type_synonym component = string

definition Select :: component where
  "Select = ''Select''"

text \<open>\<open>DomainNoDefault\<close>: every member is optional.\<close>

record domain =
  className :: "string option"
  displayFormatter :: "(jsval \<Rightarrow> string) option"
  inputFormatter :: "(jsval \<Rightarrow> string) option"
  unformatter :: "(string \<Rightarrow> jsval) option"
  validator :: "string list option"
  DisplayComponent :: "component option"
  displayProps :: "obj option"
  InputComponent :: "component option"
  inputProps :: "obj option"
  LabelComponent :: "component option"
  labelProps :: "obj option"

text \<open>\<open>FieldEntry\<close> (its constant \<open>type: "field"\<close> is left out).\<close>

record fieldEntry =
  domain :: domain
  isRequired :: bool
  name :: string
  translationKey :: string

text \<open>
  \<open>EntityField\<close>: the metadata \<open>$field\<close> and the current value. The domain inside
  \<open>$field\<close> is one object shared by reference by every node of that field, so the
  domain a helper returns below is the domain every such node sees afterwards.
\<close>

record entityField =
  dollar_field :: fieldEntry
  fieldValue :: jsval


section \<open>Field helpers\<close>

text \<open>
  \<open>onChange\<close> handlers: one supplied by the caller, or the default MobX action
  \<open>value => field.value = value\<close> with its debug name.
\<close>

datatype handler = Supplied string | AssignFieldValue string

text \<open>
  The members of \<open>FieldOptions\<close> / \<open>ReferenceOptions\<close> that the helpers read or
  write. A reference list (\<open>opt_values\<close>) is a list of objects.
\<close>

record fieldOptions =
  onChange :: "handler option"
  innerRef :: "string option"
  opt_isEdit :: "bool option"
  SelectComponent :: "component option"
  opt_values :: "obj list option"
  valueKey :: "string option"
  labelKey :: "string option"

definition no_options :: fieldOptions where
  "no_options =
     \<lparr>onChange = None, innerRef = None, opt_isEdit = None, SelectComponent = None,
      opt_values = None, valueKey = None, labelKey = None\<rparr>"

text \<open>The element \<open><Field field={field} {...options} />\<close>.\<close>

record element =
  el_field :: entityField
  el_props :: fieldOptions

text \<open>
  What a helper leaves behind: the field and the options object it was given, as they are
  after the call (both are passed by reference), and the element it returns.
\<close>

record helperResult =
  field_after :: entityField
  options_after :: fieldOptions
  rendered :: element

subsection \<open>The helpers of the field module with \<open>displayFor\<close>\<close>

definition fieldFor :: "entityField \<Rightarrow> fieldOptions option \<Rightarrow> helperResult" where
  "fieldFor field options =
     (let o0 = or_default options no_options;
          o1 = o0\<lparr>onChange :=
                 Some (or_default (onChange o0)
                   (AssignFieldValue (''on'' @ upperFirst (name (dollar_field field)) @ ''Change'')))\<rparr>;
          o2 = (if innerRef o1 = None
                then (if opt_isEdit o1 = None then o1\<lparr>opt_isEdit := Some True\<rparr> else o1)
                else o1)
      in \<lparr>field_after = field, options_after = o2,
          rendered = \<lparr>el_field = field, el_props = o2\<rparr>\<rparr>)"

definition displayFor :: "entityField \<Rightarrow> fieldOptions option \<Rightarrow> helperResult" where
  "displayFor field options =
     (let o0 = or_default options no_options;
          o1 = o0\<lparr>opt_isEdit := Some False\<rparr>
      in fieldFor field (Some o1))"

definition selectFor :: "entityField \<Rightarrow> obj list \<Rightarrow> fieldOptions option \<Rightarrow> helperResult" where
  "selectFor field vals options =
     (let o0 = or_default options no_options;
          fe = dollar_field field;
          field1 = field\<lparr>dollar_field :=
                     fe\<lparr>domain := (domain fe)\<lparr>InputComponent :=
                                    Some (or_default (SelectComponent o0) Select)\<rparr>\<rparr>\<rparr>;
          o1 = o0\<lparr>opt_values := Some vals\<rparr>
      in fieldFor field1 (Some o1))"

definition stringFor :: "(jsval \<Rightarrow> string) \<Rightarrow> entityField \<Rightarrow> fieldOptions option \<Rightarrow> string" where
  "stringFor translate field options =
     (let o0 = or_default options no_options;
          v = fieldValue field;
          fmt = or_default (displayFormatter (domain (dollar_field field))) translate;
          vk = or_default (valueKey o0) ''code'';
          lk = or_default (labelKey o0) ''label'';
          vals = or_default (opt_values o0) [];
          found = find (\<lambda>el. get_prop el vk = v) vals;
          processedValue = js_or (found_and found (\<lambda>el. get_prop el lk)) v
      in fmt processedValue)"

subsection \<open>The helpers of entity/field/utils.tsx\<close>

text \<open>
  \<open>ReferenceList\<close>: an array of objects that may carry the two key names as
  properties \<open>$valueKey\<close> and \<open>$labelKey\<close>.
\<close>

record referenceList =
  items :: "obj list"
  dollar_valueKey :: "string option"
  dollar_labelKey :: "string option"

definition utils_fieldFor :: "entityField \<Rightarrow> fieldOptions option \<Rightarrow> helperResult" where
  "utils_fieldFor field options =
     (let o0 = or_default options no_options;
          o1 = o0\<lparr>onChange :=
                 Some (or_default (onChange o0)
                   (AssignFieldValue (''on'' @ upperFirst (name (dollar_field field)) @ ''Change'')))\<rparr>
      in \<lparr>field_after = field, options_after = o1,
          rendered = \<lparr>el_field = field, el_props = o1\<rparr>\<rparr>)"

definition utils_selectFor ::
  "entityField \<Rightarrow> referenceList \<Rightarrow> fieldOptions option \<Rightarrow> helperResult" where
  "utils_selectFor field vals options =
     (let o0 = or_default options no_options;
          o1 = o0\<lparr>SelectComponent := Some (or_default (SelectComponent o0) Select)\<rparr>;
          o2 = o1\<lparr>opt_values := Some (items vals)\<rparr>
      in utils_fieldFor field (Some o2))"

definition utils_stringFor ::
  "(jsval \<Rightarrow> string) \<Rightarrow> entityField \<Rightarrow> referenceList option \<Rightarrow> string" where
  "utils_stringFor translate field vals =
     (let vs = or_default vals \<lparr>items = [], dollar_valueKey = None, dollar_labelKey = None\<rparr>;
          v = fieldValue field;
          fmt = or_default (displayFormatter (domain (dollar_field field))) translate;
          vk = or_default (dollar_valueKey vs) ''code'';
          lk = or_default (dollar_labelKey vs) ''label'';
          found = find (\<lambda>el. get_prop el vk = v) (items vs);
          processedValue = js_or (found_and found (\<lambda>el. get_prop el lk)) v
      in fmt processedValue)"


section \<open>The form lifecycle: AutoForm\<close>

text \<open>
  An asynchronous method is modelled in two parts: what it does up to its \<open>await\<close> (the
  call of the collaborator included), and what it does once the collaborator's promise has
  settled. The settlement is an input of the second part.
\<close>

datatype ('d, 'x) settled = Resolved 'd | Rejected 'x

datatype js_error = TypeError

text \<open>
  What a form does to the outside: calls of the two collaborators, with their arguments,
  and calls of the overridable hooks. They are recorded in order.
\<close>

datatype ('d, 'p) effect =
  CallSave 'd
| CallLoad "'p list"
| OnFormLoaded
| OnFormSaved
| AddSuccessMessage string

subsection \<open>The entity of a form\<close>

text \<open>
  \<open>entity: StoreNode & FormNode\<close>. The store and view-model code is not among the files
  of the form; its operations are parameters of the model (\<open>storeApi\<close>), acting on the
  data \<open>'n\<close> of the node: the view model's own values together with its source node.
  The \<open>form\<close> facet carries the edit flag; \<open>form.isValid\<close> is computed by the validation
  engine from the node and is a parameter too.
\<close>

record formFacet =
  isEdit :: bool

record 'n entity =
  node :: 'n
  form :: "formFacet option"

record ('n, 'd) storeApi =
  toFlatValues :: "'n \<Rightarrow> 'd"
  sourceNode_set :: "'d \<Rightarrow> 'n \<Rightarrow> 'n"
  sourceNode_clear :: "'n \<Rightarrow> 'n"
  reset :: "'n \<Rightarrow> 'n"
  subscribe :: "'n \<Rightarrow> 'n"
  unsubscribe :: "'n \<Rightarrow> 'n"
  isValid :: "'n \<Rightarrow> bool"

subsection \<open>A form instance\<close>

text \<open>
  \<open>ServiceConfig\<close>. \<open>getLoadParams\<close> may be absent, and returns a parameter array or
  \<open>undefined\<close>; of \<open>load\<close> only its presence is state (its promise is an input);
  \<open>save\<close> is mandatory.
\<close>

record 'p serviceConfig =
  getLoadParams :: "(unit \<Rightarrow> 'p list option) option"
  has_load :: bool

datatype reaction = Active | Disposed

text \<open>
  The fields of an \<open>AutoForm\<close>. \<open>forceErrorDisplay\<close> is \<open>formContext.forceErrorDisplay\<close>.
  \<open>mounted\<close> is true between \<open>componentWillMount\<close> and \<open>componentWillUnmount\<close>, the
  span in which the class autorun of \<open>updateApplicationStore\<close> is alive. The options
  that only affect rendering (\<open>className\<close>, \<open>hasForm\<close>, \<open>i18nPrefix\<close>) are left out.
\<close>

record ('n, 'd, 'p) autoForm =
  formId :: string
  entity :: "'n entity"
  services :: "'p serviceConfig"
  isLoading :: bool
  forceErrorDisplay :: bool
  loadDisposer :: "reaction option"
  mounted :: bool
  effects :: "('d, 'p) effect list"

text \<open>
  \<open>formInit\<close>, which the subclass calls from \<open>init()\<close>: it stores the services and,
  when there is a \<open>getLoadParams\<close>, installs the reaction that reloads on a change of
  the parameters.
\<close>

definition formInit :: "'p serviceConfig \<Rightarrow> ('n, 'd, 'p) autoForm \<Rightarrow> ('n, 'd, 'p) autoForm" where
  "formInit svc f =
     f\<lparr>services := svc,
       loadDisposer := (if getLoadParams svc \<noteq> None then Some Active else loadDisposer f)\<rparr>"

text \<open>
  A new instance, by the field initialisers of the class, for an instance whose
  \<open>formId = v4()\<close> came out as \<open>fid\<close> and whose subclass defines \<open>entity\<close> as \<open>e\<close>.
  The services are not set before \<open>formInit\<close>.
\<close>

definition new_form :: "string \<Rightarrow> 'n entity \<Rightarrow> ('n, 'd, 'p) autoForm" where
  "new_form fid e =
     \<lparr>formId = fid, entity = e,
      services = \<lparr>getLoadParams = None, has_load = False\<rparr>,
      isLoading = False, forceErrorDisplay = False, loadDisposer = None,
      mounted = False, effects = []\<rparr>"

subsection \<open>toggleEdit\<close>

definition toggleEdit ::
  "('n, 'd) storeApi \<Rightarrow> bool \<Rightarrow> ('n, 'd, 'p) autoForm \<Rightarrow> js_error + ('n, 'd, 'p) autoForm" where
  "toggleEdit api b f =
     (case form (entity f) of
        None \<Rightarrow> Inl TypeError
      | Some fm \<Rightarrow>
          (let e1 = (entity f)\<lparr>form := Some (fm\<lparr>isEdit := b\<rparr>)\<rparr>;
               e2 = (if \<not> b then e1\<lparr>node := reset api (node e1)\<rparr> else e1)
           in Inr (f\<lparr>entity := e2\<rparr>)))"

subsection \<open>load\<close>

text \<open>
  Up to the \<open>await\<close>: the result says whether the load collaborator was called, that is,
  whether a continuation is pending.
\<close>

definition load_begin ::
  "('n, 'd) storeApi \<Rightarrow> ('n, 'd, 'p) autoForm \<Rightarrow> ('n, 'd, 'p) autoForm \<times> bool" where
  "load_begin api f =
     (case getLoadParams (services f) of
        None \<Rightarrow> (f, False)
      | Some glp \<Rightarrow>
          if \<not> has_load (services f) then (f, False)
          else
            (case glp () of
               None \<Rightarrow> (f, False)
             | Some params \<Rightarrow>
                 (f\<lparr>isLoading := True,
                    entity := (entity f)\<lparr>node := sourceNode_clear api (node (entity f))\<rparr>,
                    effects := effects f @ [CallLoad params]\<rparr>, True)))"

text \<open>
  After the \<open>await\<close>. There is no handler around it: when the promise rejects, nothing
  more of \<open>load\<close> runs and the promise of \<open>load()\<close> rejects with the same reason, which is
  the second component of the result.
\<close>

fun load_settle ::
  "('n, 'd) storeApi \<Rightarrow> ('d, 'x) settled \<Rightarrow> ('n, 'd, 'p) autoForm
     \<Rightarrow> ('n, 'd, 'p) autoForm \<times> 'x option" where
  "load_settle api (Resolved data) f =
     (f\<lparr>entity := (entity f)\<lparr>node := sourceNode_set api data (node (entity f))\<rparr>,
        isLoading := False,
        effects := effects f @ [OnFormLoaded]\<rparr>, None)"
| "load_settle api (Rejected e) f = (f, Some e)"

text \<open>One whole run of \<open>load()\<close>, nothing else happening on the form meanwhile.\<close>

definition load ::
  "('n, 'd) storeApi \<Rightarrow> ('d, 'x) settled \<Rightarrow> ('n, 'd, 'p) autoForm
     \<Rightarrow> ('n, 'd, 'p) autoForm \<times> 'x option" where
  "load api outcome f =
     (case load_begin api f of
        (f1, True) \<Rightarrow> load_settle api outcome f1
      | (f1, False) \<Rightarrow> (f1, None))"

subsection \<open>save\<close>

definition save_begin ::
  "('n, 'd) storeApi \<Rightarrow> ('n, 'd, 'p) autoForm \<Rightarrow> ('n, 'd, 'p) autoForm \<times> bool" where
  "save_begin api f =
     (let f1 = f\<lparr>forceErrorDisplay := True\<rparr>
      in if form (entity f1) = None \<or> isValid api (node (entity f1))
         then (f1\<lparr>isLoading := True,
                  effects := effects f1 @ [CallSave (toFlatValues api (node (entity f1)))]\<rparr>,
               True)
         else (f1, False))"

text \<open>
  After the \<open>await\<close>, inside \<open>try\<close>. In \<open>afterSave\<close>, \<open>this.entity.form.isEdit = false\<close>
  throws a TypeError when the entity has no \<open>form\<close> facet; \<open>isLoading\<close> has been reset by
  then, the rest of the \<open>try\<close> block is skipped and the \<open>catch\<close> block resets \<open>isLoading\<close>
  again. The \<open>catch\<close> block does not look at what it caught.
\<close>

fun save_settle ::
  "('n, 'd) storeApi \<Rightarrow> ('d, 'x) settled \<Rightarrow> ('n, 'd, 'p) autoForm \<Rightarrow> ('n, 'd, 'p) autoForm" where
  "save_settle api (Resolved data) f =
     (let f1 = f\<lparr>isLoading := False\<rparr>
      in case form (entity f1) of
           None \<Rightarrow> f1\<lparr>isLoading := False\<rparr>
         | Some fm \<Rightarrow>
             f1\<lparr>entity := (entity f1)\<lparr>form := Some (fm\<lparr>isEdit := False\<rparr>),
                                     node := sourceNode_set api data (node (entity f1))\<rparr>,
                effects := effects f1 @ [OnFormSaved]\<rparr>)"
| "save_settle api (Rejected e) f = f\<lparr>isLoading := False\<rparr>"

text \<open>One whole run of \<open>save()\<close>, nothing else happening on the form meanwhile.\<close>

definition save ::
  "('n, 'd) storeApi \<Rightarrow> ('d, 'x) settled \<Rightarrow> ('n, 'd, 'p) autoForm \<Rightarrow> ('n, 'd, 'p) autoForm" where
  "save api outcome f =
     (case save_begin api f of
        (f1, True) \<Rightarrow> save_settle api outcome f1
      | (f1, False) \<Rightarrow> f1)"

text \<open>The number of calls of the save collaborator recorded so far.\<close>

fun is_CallSave :: "('d, 'p) effect \<Rightarrow> bool" where
  "is_CallSave (CallSave d) = True"
| "is_CallSave _ = False"

definition save_calls :: "('n, 'd, 'p) autoForm \<Rightarrow> nat" where
  "save_calls f = length (filter is_CallSave (effects f))"


subsection \<open>The registry of the forms in edition\<close>

text \<open>
  \<open>AutoForm.editingMap\<close>, an observable map from form identifiers to edit flags, in
  insertion order; \<open>set\<close> on a key that is there keeps its place.
\<close>

type_synonym editingMap = "(string \<times> bool) list"

definition isOneEdit :: "editingMap \<Rightarrow> bool" where
  "isOneEdit em = list_ex (\<lambda>x. x) (map snd em)"

definition updateApplicationStore ::
  "('n, 'd, 'p) autoForm \<Rightarrow> editingMap \<Rightarrow> js_error + editingMap" where
  "updateApplicationStore f em =
     (case form (entity f) of
        None \<Rightarrow> Inl TypeError
      | Some fm \<Rightarrow> Inr (AList.update (formId f) (isEdit fm) em))"

text \<open>
  \<open>componentWillMount\<close>; \<open>init()\<close> is the call \<open>formInit svc\<close>. The promise of the
  \<open>load()\<close> it starts is not awaited.
\<close>

definition componentWillMount ::
  "('n, 'd) storeApi \<Rightarrow> 'p serviceConfig \<Rightarrow> editingMap \<Rightarrow> ('n, 'd, 'p) autoForm
     \<Rightarrow> js_error + (editingMap \<times> ('n, 'd, 'p) autoForm)" where
  "componentWillMount api svc em f =
     (let f0 = formInit svc f
      in case form (entity f0) of
           None \<Rightarrow> Inl TypeError
         | Some fm \<Rightarrow>
             (let em1 = AList.update (formId f0) (isEdit fm) em;
                  f1 = f0\<lparr>entity := (entity f0)\<lparr>node := subscribe api (node (entity f0))\<rparr>,
                          mounted := True\<rparr>
              in Inr (em1, fst (load_begin api f1))))"

definition componentWillUnmount ::
  "('n, 'd) storeApi \<Rightarrow> editingMap \<Rightarrow> ('n, 'd, 'p) autoForm
     \<Rightarrow> editingMap \<times> ('n, 'd, 'p) autoForm" where
  "componentWillUnmount api em f =
     (AList.delete (formId f) em,
      f\<lparr>entity := (entity f)\<lparr>node := unsubscribe api (node (entity f))\<rparr>,
        loadDisposer := (case loadDisposer f of None \<Rightarrow> None | Some r \<Rightarrow> Some Disposed),
        mounted := False\<rparr>)"

subsection \<open>All the forms of the application\<close>

text \<open>
  The registry and every form instance created so far, in the order of creation. A form
  that has been unmounted stays an object that a pending continuation can still write to.
  An instance is addressed by its position, not by its \<open>formId\<close>: nothing in the class
  makes two instances draw different identifiers.
\<close>

record ('n, 'd, 'p) world =
  editingMap :: editingMap
  instances :: "('n, 'd, 'p) autoForm list"

definition empty_world :: "('n, 'd, 'p) world" where
  "empty_world = \<lparr>editingMap = [], instances = []\<rparr>"

text \<open>
  Modelled from the spec: the decorator \<open>classAutorun\<close> (module \<open>util\<close>) on
  \<open>updateApplicationStore\<close> is not among the files. By the spec the registry follows the
  edit flag of a mounted form synchronously: when an action on a mounted form \<open>f\<close> has
  changed what the method reads (\<open>entity.form.isEdit\<close>), the method runs again, at the
  end of that action.
\<close>

definition classAutorun ::
  "('n, 'd, 'p) autoForm \<Rightarrow> ('n, 'd, 'p) autoForm \<Rightarrow> editingMap \<Rightarrow> editingMap" where
  "classAutorun f f' em =
     (if mounted f' \<and> form (entity f') \<noteq> form (entity f)
      then (case updateApplicationStore f' em of Inl err \<Rightarrow> em | Inr em' \<Rightarrow> em')
      else em)"

text \<open>An action \<open>g\<close> on the \<open>i\<close>-th instance, followed by the autorun.\<close>

definition act ::
  "nat \<Rightarrow> (('n, 'd, 'p) autoForm \<Rightarrow> ('n, 'd, 'p) autoForm) \<Rightarrow> ('n, 'd, 'p) world
     \<Rightarrow> ('n, 'd, 'p) world" where
  "act i g w =
     (if i < length (instances w)
      then (let f = instances w ! i; f' = g f
            in w\<lparr>editingMap := classAutorun f f' (editingMap w),
                 instances := (instances w)[i := f']\<rparr>)
      else w)"

text \<open>
  What can happen to the application: a form is created (drawing the identifier \<open>fid\<close>)
  and mounted, a mounted form is unmounted, a method of a form is called, or a pending
  promise of a form settles.
\<close>

datatype ('n, 'd, 'p, 'x) op =
  Mount string "'n entity" "'p serviceConfig"
| Unmount nat
| ToggleEdit nat bool
| Save nat
| SaveSettled nat "('d, 'x) settled"
| Load nat
| LoadSettled nat "('d, 'x) settled"

fun step ::
  "('n, 'd) storeApi \<Rightarrow> ('n, 'd, 'p, 'x) op \<Rightarrow> ('n, 'd, 'p) world \<Rightarrow> ('n, 'd, 'p) world" where
  "step api (Mount fid e svc) w =
     (case componentWillMount api svc (editingMap w) (new_form fid e) of
        Inl err \<Rightarrow> w
      | Inr (em, f) \<Rightarrow> w\<lparr>editingMap := em, instances := instances w @ [f]\<rparr>)"
| "step api (Unmount i) w =
     (if i < length (instances w) \<and> mounted (instances w ! i)
      then (case componentWillUnmount api (editingMap w) (instances w ! i) of
              (em, f') \<Rightarrow> w\<lparr>editingMap := em, instances := (instances w)[i := f']\<rparr>)
      else w)"
| "step api (ToggleEdit i b) w =
     act i (\<lambda>f. case toggleEdit api b f of Inl err \<Rightarrow> f | Inr f' \<Rightarrow> f') w"
| "step api (Save i) w = act i (\<lambda>f. fst (save_begin api f)) w"
| "step api (SaveSettled i outcome) w = act i (save_settle api outcome) w"
| "step api (Load i) w = act i (\<lambda>f. fst (load_begin api f)) w"
| "step api (LoadSettled i outcome) w = act i (\<lambda>f. fst (load_settle api outcome f)) w"

fun run ::
  "('n, 'd) storeApi \<Rightarrow> ('n, 'd, 'p, 'x) op list \<Rightarrow> ('n, 'd, 'p) world \<Rightarrow> ('n, 'd, 'p) world" where
  "run api [] w = w"
| "run api (x # xs) w = run api xs (step api x w)"

text \<open>The identifiers drawn by the forms that a run creates.\<close>

fun mount_ids :: "('n, 'd, 'p, 'x) op list \<Rightarrow> string list" where
  "mount_ids [] = []"
| "mount_ids (Mount fid e svc # xs) = fid # mount_ids xs"
| "mount_ids (x # xs) = mount_ids xs"

text \<open>The edit flag of a form, and whether some mounted form is in edition.\<close>

definition editing :: "('n, 'd, 'p) autoForm \<Rightarrow> bool" where
  "editing f = (case form (entity f) of None \<Rightarrow> False | Some fm \<Rightarrow> isEdit fm)"

definition some_mounted_editing :: "('n, 'd, 'p) world \<Rightarrow> bool" where
  "some_mounted_editing w = list_ex (\<lambda>f. mounted f \<and> editing f) (instances w)"

text \<open>
  The registry agrees with the forms: its keys are the identifiers of the mounted forms,
  each with the edit flag of its form.
\<close>

definition consistent :: "('n, 'd, 'p) world \<Rightarrow> bool" where
  "consistent w \<longleftrightarrow>
     distinct (map fst (editingMap w)) \<and>
     distinct (map formId (instances w)) \<and>
     (\<forall>fid b. map_of (editingMap w) fid = Some b \<longleftrightarrow>
        (\<exists>f \<in> set (instances w). mounted f \<and> formId f = fid \<and> editing f = b)) \<and>
     (\<forall>f \<in> set (instances w). mounted f \<longrightarrow> form (entity f) \<noteq> None)"


section \<open>The earlier AutoForm, with its own error map\<close>

text \<open>
  The earlier revision of the class keeps the edit flag, a map \<open>errors\<close> and the mounted
  \<open>Field\<close> components (\<open>fields\<close>, here \<open>form_fields\<close>; an entry may be \<open>null\<close>) on the
  form itself. Of a \<open>Field\<close> the form writes
  \<open>showError\<close> and reads \<open>error\<close>. \<open>legacy_node\<close> is the data of \<open>entity\<close> and
  \<open>storeData\<close>, under the same \<open>storeApi\<close>.
\<close>

record legacyField =
  showError :: bool
  error :: "string option"

text \<open>What the save service rejects with: an object that may have a \<open>fields\<close> property.\<close>

record rejection =
  rej_fields :: "(string \<times> string) list option"

record ('n, 'd, 'p) legacyForm =
  legacy_node :: 'n
  errors :: "(string \<times> string) list"
  form_fields :: "(string \<times> legacyField option) list"
  legacy_isEdit :: bool
  legacy_isLoading :: bool
  legacy_effects :: "('d, 'p) effect list"

text \<open>
  The loop of \<open>validate()\<close>: \<open>this.fields[field]!.showError = true\<close> for every key, in
  order; on a \<open>null\<close> entry the assignment throws and the loop stops there. The flag of
  the result says whether the loop ran to its end.
\<close>

fun showErrors ::
  "(string \<times> legacyField option) list \<Rightarrow> (string \<times> legacyField option) list \<times> bool" where
  "showErrors [] = ([], True)"
| "showErrors ((k, None) # fs) = ((k, None) # fs, False)"
| "showErrors ((k, Some fl) # fs) =
     (case showErrors fs of (fs', ok) \<Rightarrow> ((k, Some (fl\<lparr>showError := True\<rparr>)) # fs', ok))"

text \<open>\<open>field && field.error\<close> is truthy: the field is there and its error is a non-empty string.\<close>

definition has_error :: "legacyField option \<Rightarrow> bool" where
  "has_error fl =
     (case fl of
        None \<Rightarrow> False
      | Some x \<Rightarrow> (case error x of None \<Rightarrow> False | Some msg \<Rightarrow> msg \<noteq> []))"

definition legacy_validate ::
  "('n, 'd, 'p) legacyForm \<Rightarrow> ('n, 'd, 'p) legacyForm \<times> (js_error + bool)" where
  "legacy_validate f =
     (case showErrors (form_fields f) of
        (fs, ok) \<Rightarrow>
          (f\<lparr>form_fields := fs\<rparr>,
           if ok then Inr (\<not> list_ex has_error (map snd fs)) else Inl TypeError))"

text \<open>
  \<open>save()\<close> up to its \<open>await\<close>: \<open>Inr True\<close> when the save collaborator has been called,
  \<open>Inr False\<close> when validation failed, \<open>Inl\<close> when \<open>validate()\<close> threw (it is called
  outside the \<open>try\<close> block).
\<close>

definition legacy_save_begin ::
  "('n, 'd) storeApi \<Rightarrow> ('n, 'd, 'p) legacyForm
     \<Rightarrow> ('n, 'd, 'p) legacyForm \<times> (js_error + bool)" where
  "legacy_save_begin api f =
     (case legacy_validate f of
        (f1, Inl err) \<Rightarrow> (f1, Inl err)
      | (f1, Inr valid) \<Rightarrow>
          if valid
          then (f1\<lparr>legacy_isLoading := True,
                   legacy_effects :=
                     legacy_effects f1 @ [CallSave (toFlatValues api (legacy_node f1))]\<rparr>,
                Inr True)
          else (f1, Inr False))"

fun legacy_save_settle ::
  "('n, 'd) storeApi \<Rightarrow> ('d, rejection) settled \<Rightarrow> ('n, 'd, 'p) legacyForm
     \<Rightarrow> ('n, 'd, 'p) legacyForm" where
  "legacy_save_settle api (Resolved data) f =
     f\<lparr>legacy_isLoading := False,
       legacy_isEdit := False,
       legacy_node := sourceNode_set api data (legacy_node f),
       legacy_effects := legacy_effects f @ [AddSuccessMessage ''detail.saved'', OnFormSaved]\<rparr>"
| "legacy_save_settle api (Rejected e) f =
     (let f1 = f\<lparr>legacy_isLoading := False\<rparr>
      in case rej_fields e of
           None \<Rightarrow> f1
         | Some m \<Rightarrow> f1\<lparr>errors := m\<rparr>)"

definition legacy_save ::
  "('n, 'd) storeApi \<Rightarrow> ('d, rejection) settled \<Rightarrow> ('n, 'd, 'p) legacyForm
     \<Rightarrow> ('n, 'd, 'p) legacyForm" where
  "legacy_save api outcome f =
     (case legacy_save_begin api f of
        (f1, Inr True) \<Rightarrow> legacy_save_settle api outcome f1
      | (f1, r) \<Rightarrow> f1)"


section \<open>A store for concrete runs\<close>

text \<open>
  Modelled from the spec: the store node and the view model (modules \<open>store\<close> and
  \<open>view-model\<close>) are not among the files. A node is flat here: the view model's values,
  the values of its source node, and whether the view model is subscribed.
  \<open>set\<close> merges the given keys into the source and leaves the others; \<open>clear\<close> sets every
  field of the source to \<open>undefined\<close> and keeps its keys; while subscribed, a change of
  the source is copied into each field of the view model that still had the source's
  value; \<open>reset\<close> copies the source; \<open>isValid\<close> says that the error map of the values is
  empty, for a given \<open>validateNode\<close>.
\<close>

record specNode =
  vm_values :: obj
  source_values :: obj
  vm_subscribed :: bool

definition mirror :: "obj \<Rightarrow> obj \<Rightarrow> obj \<Rightarrow> obj" where
  "mirror old new vals =
     fold (\<lambda>k acc. if get_prop vals k = get_prop old k
                    then AList.update k (get_prop new k) acc else acc)
          (map fst new) vals"

definition source_changed :: "obj \<Rightarrow> specNode \<Rightarrow> specNode" where
  "source_changed new n =
     n\<lparr>source_values := new,
       vm_values := (if vm_subscribed n then mirror (source_values n) new (vm_values n)
                     else vm_values n)\<rparr>"

definition specStore :: "(obj \<Rightarrow> (string \<times> string) list) \<Rightarrow> (specNode, obj) storeApi" where
  "specStore validateNode =
     \<lparr>toFlatValues = vm_values,
      sourceNode_set = (\<lambda>d n. source_changed (AList.merge (source_values n) d) n),
      sourceNode_clear = (\<lambda>n. source_changed (map (\<lambda>(k, v). (k, Undefined)) (source_values n)) n),
      reset = (\<lambda>n. n\<lparr>vm_values := source_values n\<rparr>),
      subscribe = (\<lambda>n. n\<lparr>vm_subscribed := True\<rparr>),
      unsubscribe = (\<lambda>n. n\<lparr>vm_subscribed := False\<rparr>),
      isValid = (\<lambda>n. validateNode (vm_values n) = [])\<rparr>"

text \<open>A validation with one rule: the field \<open>name\<close> is required.\<close>

definition name_required :: "obj \<Rightarrow> (string \<times> string) list" where
  "name_required vals =
     (if truthy (get_prop vals ''name'') then [] else [(''name'', ''required'')])"


section \<open>Concrete inputs\<close>

text \<open>A field \<open>country\<close> with the value \<open>"DE"\<close> and a domain without any setting.\<close>

definition plain_domain :: domain where
  "plain_domain =
     \<lparr>className = None, displayFormatter = None, inputFormatter = None, unformatter = None,
      validator = None, DisplayComponent = None, displayProps = None, InputComponent = None,
      inputProps = None, LabelComponent = None, labelProps = None\<rparr>"

definition country_field :: entityField where
  "country_field =
     \<lparr>dollar_field = \<lparr>domain = plain_domain, isRequired = False, name = ''country'',
                      translationKey = ''person.country''\<rparr>,
      fieldValue = Str ''DE''\<rparr>"

text \<open>A reference list in which the code \<open>"DE"\<close> occurs twice, and once without a label.\<close>

definition countries :: "obj list" where
  "countries =
     [[(''code'', Str ''FR''), (''label'', Str ''France'')],
      [(''code'', Str ''DE''), (''label'', Str ''Germany'')],
      [(''code'', Str ''DE''), (''label'', Str ''Deutschland'')],
      [(''code'', Str ''IT''), (''label'', Str [])]]"

definition country_options :: fieldOptions where
  "country_options = no_options\<lparr>opt_values := Some countries\<rparr>"

text \<open>A stand-in for \<open>i18next.t\<close>: a string is its own translation.\<close>

fun plain_text :: "jsval \<Rightarrow> string" where
  "plain_text (Str s) = s"
| "plain_text v = []"

text \<open>
  A form on a person whose name is being edited from \<open>Ann\<close> to \<open>Anna\<close>, with a load
  service and load parameters, and the same form with the name emptied.
\<close>

definition person_node :: "string \<Rightarrow> specNode" where
  "person_node nm =
     \<lparr>vm_values = [(''name'', Str nm)], source_values = [(''name'', Str ''Ann'')],
      vm_subscribed = True\<rparr>"

definition person_entity :: "string \<Rightarrow> bool \<Rightarrow> specNode entity" where
  "person_entity nm b = \<lparr>node = person_node nm, form = Some \<lparr>isEdit = b\<rparr>\<rparr>"

definition person_services :: "nat serviceConfig" where
  "person_services = \<lparr>getLoadParams = Some (\<lambda>u. Some [7]), has_load = True\<rparr>"

definition idle_services :: "nat serviceConfig" where
  "idle_services = \<lparr>getLoadParams = Some (\<lambda>u. None), has_load = True\<rparr>"

definition person_form :: "string \<Rightarrow> (specNode, obj, nat) autoForm" where
  "person_form nm =
     \<lparr>formId = ''form-1'', entity = person_entity nm True, services = person_services,
      isLoading = False, forceErrorDisplay = False, loadDisposer = Some Active,
      mounted = True, effects = []\<rparr>"

definition person_api :: "(specNode, obj) storeApi" where
  "person_api = specStore name_required"

text \<open>What the server answers to a save, and a rejection with a field error.\<close>

definition saved_person :: obj where
  "saved_person = [(''name'', Str ''Anna''), (''id'', Num 12)]"

definition email_invalid :: rejection where
  "email_invalid = \<lparr>rej_fields = Some [(''email'', ''invalid'')]\<rparr>"

definition no_details :: rejection where
  "no_details = \<lparr>rej_fields = None\<rparr>"

text \<open>The earlier form, after a first failed save that left an error on \<open>name\<close>.\<close>

definition legacy_person_form :: "(specNode, obj, nat) legacyForm" where
  "legacy_person_form =
     \<lparr>legacy_node = person_node ''Anna'',
      errors = [(''name'', ''taken'')],
      form_fields = [(''person.name'', Some \<lparr>showError = False, error = None\<rparr>)],
      legacy_isEdit = True, legacy_isLoading = False, legacy_effects = []\<rparr>"

text \<open>
  Two forms are mounted, the first one enters edition and is unmounted while it is in
  edition, then the second one enters edition.
\<close>

definition two_forms :: "(specNode, obj, nat, rejection) op list" where
  "two_forms =
     [Mount ''form-1'' (person_entity ''Ann'' False) idle_services,
      Mount ''form-2'' (person_entity ''Ann'' False) idle_services,
      ToggleEdit 0 True,
      Unmount 0,
      ToggleEdit 1 True]"

text \<open>One form, mounted while it is in edition with an unsaved change of the name.\<close>

definition one_form :: "(specNode, obj, nat, rejection) op list" where
  "one_form = [Mount ''form-1'' (person_entity ''Anna'' True) idle_services]"


section \<open>The field helpers and the domain\<close>

lemma fieldFor_keeps_field: "field_after (fieldFor field options) = field"
  by (simp add: fieldFor_def Let_def)

lemma displayFor_keeps_field: "field_after (displayFor field options) = field"
  by (simp add: displayFor_def fieldFor_keeps_field Let_def)

lemma utils_helpers_keep_field:
  "field_after (utils_fieldFor field options) = field \<and>
   field_after (utils_selectFor field vals options) = field"
  by (simp add: utils_fieldFor_def utils_selectFor_def Let_def)

text \<open>
  \<open>selectFor\<close> of the module with \<open>displayFor\<close> changes one member of the domain and
  nothing else of the field.
\<close>

lemma selectFor_field_after:
  "field_after (selectFor field vals options) =
     field\<lparr>dollar_field := (dollar_field field)\<lparr>domain := (domain (dollar_field field))
        \<lparr>InputComponent :=
           Some (or_default (SelectComponent (or_default options no_options)) Select)\<rparr>\<rparr>\<rparr>"
  by (simp add: selectFor_def fieldFor_keeps_field Let_def)

text \<open>
  C9. The claim is that no helper changes the domain of a field. \<open>selectFor\<close> of the
  module with \<open>displayFor\<close> does: on the field \<open>country\<close>, whose domain has no
  \<open>InputComponent\<close>, it leaves the domain with \<open>InputComponent = Select\<close>, which every
  node sharing that domain then sees. \<open>selectFor\<close> of utils.tsx, given the same field and
  list, puts the component into the options and leaves the domain as it was.
\<close>

theorem selectFor_writes_domain:
  "InputComponent (domain (dollar_field country_field)) = None \<and>
   InputComponent (domain (dollar_field (field_after (selectFor country_field countries None))))
     = Some Select \<and>
   domain (dollar_field (field_after (selectFor country_field countries None)))
     \<noteq> domain (dollar_field country_field) \<and>
   domain (dollar_field (field_after (utils_selectFor country_field
       \<lparr>items = countries, dollar_valueKey = None, dollar_labelKey = None\<rparr> None)))
     = domain (dollar_field country_field)"
  by (simp add: selectFor_field_after utils_helpers_keep_field country_field_def plain_domain_def
        or_default_def no_options_def Select_def)


section \<open>The text of a field\<close>

lemma label_lookup_none:
  "\<forall>el \<in> set vals. get_prop el vk \<noteq> v \<Longrightarrow>
     js_or (found_and (find (\<lambda>el. get_prop el vk = v) vals) (\<lambda>el. get_prop el lk)) v = v"
proof -
  assume "\<forall>el \<in> set vals. get_prop el vk \<noteq> v"
  then have "find (\<lambda>el. get_prop el vk = v) vals = None"
    by (simp add: find_None_iff)
  then show ?thesis
    by (simp add: found_and_def js_or_def)
qed

lemma label_lookup_first:
  assumes "i < length vals" and "get_prop (vals ! i) vk = v"
    and "\<forall>j < i. get_prop (vals ! j) vk \<noteq> v"
  shows "js_or (found_and (find (\<lambda>el. get_prop el vk = v) vals) (\<lambda>el. get_prop el lk)) v =
           (if truthy (get_prop (vals ! i) lk) then get_prop (vals ! i) lk else v)"
proof -
  have "find (\<lambda>el. get_prop el vk = v) vals = Some (vals ! i)"
    using assms by (auto simp: find_Some_iff)
  then show ?thesis
    by (simp add: found_and_def js_or_def)
qed

text \<open>
  C10. Let \<open>fmt\<close> be the domain's \<open>displayFormatter\<close>, or the translation function when
  the domain has none, \<open>vk\<close> and \<open>lk\<close> the value key and the label key (\<open>"code"\<close> and
  \<open>"label"\<close> by default), \<open>vals\<close> the reference list (empty by default) and \<open>v\<close> the
  value of the field. When no element of the list has \<open>v\<close> under \<open>vk\<close>, \<open>stringFor\<close>
  returns \<open>fmt v\<close>. When the element at \<open>i\<close> is the first one that has, \<open>stringFor\<close>
  returns \<open>fmt\<close> of its label under \<open>lk\<close> if that label is truthy, and \<open>fmt v\<close> if it
  is falsy. \<open>stringFor\<close> of utils.tsx, where the list carries the two key names itself,
  returns the same text.
\<close>

theorem stringFor_text:
  assumes "opts = or_default options no_options"
    and "fmt = or_default (displayFormatter (domain (dollar_field field))) translate"
    and "vk = or_default (valueKey opts) ''code''"
    and "lk = or_default (labelKey opts) ''label''"
    and "vals = or_default (opt_values opts) []"
    and "v = fieldValue field"
  shows "((\<forall>el \<in> set vals. get_prop el vk \<noteq> v) \<longrightarrow>
            stringFor translate field options = fmt v) \<and>
         (\<forall>i < length vals.
            get_prop (vals ! i) vk = v \<and> (\<forall>j < i. get_prop (vals ! j) vk \<noteq> v) \<longrightarrow>
            stringFor translate field options =
              fmt (if truthy (get_prop (vals ! i) lk) then get_prop (vals ! i) lk else v)) \<and>
         utils_stringFor translate field
            (Some \<lparr>items = vals, dollar_valueKey = valueKey opts,
                   dollar_labelKey = labelKey opts\<rparr>) =
          stringFor translate field options"
proof (intro conjI impI allI)
  assume "\<forall>el \<in> set vals. get_prop el vk \<noteq> v"
  then show "stringFor translate field options = fmt v"
    using assms by (simp add: stringFor_def Let_def label_lookup_none)
next
  fix i
  assume "i < length vals"
    and "get_prop (vals ! i) vk = v \<and> (\<forall>j < i. get_prop (vals ! j) vk \<noteq> v)"
  then show "stringFor translate field options =
      fmt (if truthy (get_prop (vals ! i) lk) then get_prop (vals ! i) lk else v)"
    using assms label_lookup_first [of i vals vk v lk]
    by (simp add: stringFor_def Let_def)
next
  show "utils_stringFor translate field
            (Some \<lparr>items = vals, dollar_valueKey = valueKey opts,
                   dollar_labelKey = labelKey opts\<rparr>) =
          stringFor translate field options"
    using assms by (simp add: utils_stringFor_def stringFor_def or_default_def Let_def)
qed

text \<open>
  On the list of countries: \<open>"DE"\<close> gives the label of the first of its two elements,
  \<open>"ES"\<close>, which is not in the list, gives the value itself, and so does \<open>"IT"\<close>, whose
  label is the empty string.
\<close>

theorem stringFor_text_witness:
  "1 < length countries \<and> get_prop (countries ! 1) ''code'' = Str ''DE'' \<and>
   get_prop (countries ! 0) ''code'' \<noteq> Str ''DE'' \<and>
   stringFor plain_text country_field (Some country_options) = ''Germany'' \<and>
   list_all (\<lambda>el. get_prop el ''code'' \<noteq> Str ''ES'') countries \<and>
   stringFor plain_text (country_field\<lparr>fieldValue := Str ''ES''\<rparr>) (Some country_options)
     = ''ES'' \<and>
   stringFor plain_text (country_field\<lparr>fieldValue := Str ''IT''\<rparr>) (Some country_options)
     = ''IT''"
proof -
  have a: "(1::nat) < length countries" "get_prop (countries ! 1) ''code'' = Str ''DE''"
    "\<forall>j < (1::nat). get_prop (countries ! j) ''code'' \<noteq> Str ''DE''"
    by (simp_all add: countries_def get_prop_def)
  have b: "\<forall>el \<in> set countries. get_prop el ''code'' \<noteq> Str ''ES''"
    by (simp add: countries_def get_prop_def)
  have c: "(3::nat) < length countries" "get_prop (countries ! 3) ''code'' = Str ''IT''"
    "\<forall>j < (3::nat). get_prop (countries ! j) ''code'' \<noteq> Str ''IT''"
    by (simp_all add: countries_def get_prop_def numeral_3_eq_3 All_less_Suc)
  have lab: "get_prop (countries ! 1) ''label'' = Str ''Germany''"
    "get_prop (countries ! 3) ''label'' = Str []"
    by (simp_all add: countries_def get_prop_def)
  have o: "country_options = or_default (Some country_options) no_options"
    by (simp add: or_default_def)
  have vk: "''code'' = or_default (valueKey country_options) ''code''"
    and lk: "''label'' = or_default (labelKey country_options) ''label''"
    and vs: "countries = or_default (opt_values country_options) []"
    by (simp_all add: or_default_def country_options_def no_options_def)
  have fmt: "plain_text = or_default (displayFormatter (domain (dollar_field f))) plain_text"
    if "dollar_field f = dollar_field country_field" for f
    using that by (simp add: or_default_def country_field_def plain_domain_def)
  have v1: "Str ''DE'' = fieldValue country_field"
    by (simp add: country_field_def)
  have v2: "Str ''ES'' = fieldValue (country_field\<lparr>fieldValue := Str ''ES''\<rparr>)"
    and v3: "Str ''IT'' = fieldValue (country_field\<lparr>fieldValue := Str ''IT''\<rparr>)"
    by simp_all
  have de: "stringFor plain_text country_field (Some country_options) = ''Germany''"
    using stringFor_text [OF o fmt vk lk vs v1, THEN conjunct2, THEN conjunct1, rule_format, of 1]
      a lab
    by simp
  have es: "stringFor plain_text (country_field\<lparr>fieldValue := Str ''ES''\<rparr>)
      (Some country_options) = ''ES''"
    using stringFor_text [OF o fmt vk lk vs v2, THEN conjunct1] b
    by simp
  have it: "stringFor plain_text (country_field\<lparr>fieldValue := Str ''IT''\<rparr>)
      (Some country_options) = ''IT''"
    using stringFor_text [OF o fmt vk lk vs v3, THEN conjunct2, THEN conjunct1, rule_format, of 3]
      c lab
    by simp
  have a0: "get_prop (countries ! 0) ''code'' \<noteq> Str ''DE''"
    by (simp add: countries_def get_prop_def)
  have b0: "list_all (\<lambda>el. get_prop el ''code'' \<noteq> Str ''ES'') countries"
    using b by (simp add: list_all_iff)
  show ?thesis using a a0 b0 de es it by simp
qed


section \<open>save\<close>

lemma save_begin_invalid:
  "form (entity f) \<noteq> None \<Longrightarrow> \<not> isValid api (node (entity f)) \<Longrightarrow>
     save_begin api f = (f\<lparr>forceErrorDisplay := True\<rparr>, False)"
  by (simp add: save_begin_def Let_def)

lemma save_begin_valid:
  "form (entity f) = None \<or> isValid api (node (entity f)) \<Longrightarrow>
     save_begin api f =
       (f\<lparr>forceErrorDisplay := True, isLoading := True,
          effects := effects f @ [CallSave (toFlatValues api (node (entity f)))]\<rparr>, True)"
  by (simp add: save_begin_def Let_def)

lemma save_settle_calls:
  "save_calls (save_settle api outcome f) = save_calls f"
  by (cases outcome) (simp_all add: save_calls_def Let_def split: option.splits)

text \<open>The form on a person: its facet, its validity, its flat values.\<close>

lemma person_has_form: "form (entity (person_form nm)) = Some \<lparr>isEdit = True\<rparr>"
  by (simp add: person_form_def person_entity_def)

lemma person_valid: "isValid person_api (node (entity (person_form ''Anna'')))"
  by (simp add: person_api_def specStore_def name_required_def get_prop_def person_form_def
        person_entity_def person_node_def)

lemma person_invalid: "\<not> isValid person_api (node (entity (person_form [])))"
  by (simp add: person_api_def specStore_def name_required_def get_prop_def person_form_def
        person_entity_def person_node_def)

lemma person_flat:
  "toFlatValues person_api (node (entity (person_form ''Anna''))) = [(''name'', Str ''Anna'')]"
  by (simp add: person_api_def specStore_def person_form_def person_entity_def person_node_def)

lemma person_effects: "effects (person_form nm) = []"
  by (simp add: person_form_def)

text \<open>
  C1. One run of \<open>save()\<close> calls the save collaborator exactly once when validation
  reports no error (the entity has no \<open>form\<close> facet to report one, or \<open>form.isValid\<close>
  holds). When the facet is there and \<open>form.isValid\<close> is false, the form after the run
  is the form before it with \<open>forceErrorDisplay\<close> set: no call has been recorded and no
  other field has changed.
\<close>

theorem save_gating:
  "(form (entity f) = None \<or> isValid api (node (entity f)) \<longrightarrow>
      save_calls (save api outcome f) = save_calls f + 1) \<and>
   (form (entity f) \<noteq> None \<and> \<not> isValid api (node (entity f)) \<longrightarrow>
      save api outcome f = f\<lparr>forceErrorDisplay := True\<rparr>)"
proof (intro conjI impI)
  assume v: "form (entity f) = None \<or> isValid api (node (entity f))"
  show "save_calls (save api outcome f) = save_calls f + 1"
    by (simp add: save_def save_begin_valid [OF v] save_settle_calls) (simp add: save_calls_def)
next
  assume "form (entity f) \<noteq> None \<and> \<not> isValid api (node (entity f))"
  then show "save api outcome f = f\<lparr>forceErrorDisplay := True\<rparr>"
    by (simp add: save_def save_begin_invalid)
qed

text \<open>With the name \<open>Anna\<close> the save service is called once; with an empty name it is not.\<close>

theorem save_gating_witness:
  "isValid person_api (node (entity (person_form ''Anna''))) \<and>
   save_calls (save person_api (Resolved saved_person :: (obj, rejection) settled)
      (person_form ''Anna'')) = 1 \<and>
   form (entity (person_form [])) \<noteq> None \<and>
   \<not> isValid person_api (node (entity (person_form []))) \<and>
   save person_api (Resolved saved_person :: (obj, rejection) settled) (person_form []) =
     (person_form [])\<lparr>forceErrorDisplay := True\<rparr>"
proof -
  have c0: "save_calls (person_form ''Anna'') = 0"
    by (simp add: save_calls_def person_form_def)
  have one: "save_calls (save person_api (Resolved saved_person :: (obj, rejection) settled)
      (person_form ''Anna'')) = 1"
    using save_gating [of "person_form ''Anna''" person_api "Resolved saved_person",
        THEN conjunct1]
      person_valid c0 by simp
  have none: "save person_api (Resolved saved_person :: (obj, rejection) settled)
      (person_form []) = (person_form [])\<lparr>forceErrorDisplay := True\<rparr>"
    using save_gating [of "person_form []" person_api "Resolved saved_person", THEN conjunct2]
      person_invalid person_has_form [of "[]"] by simp
  show ?thesis using one none person_valid person_invalid person_has_form [of "[]"] by simp
qed

text \<open>
  C3. For a form whose entity has its \<open>form\<close> facet and passes validation, a run of
  \<open>save()\<close> whose collaborator resolves with \<open>data\<close> ends with \<open>isLoading\<close> false, the
  edit flag false and \<open>data\<close> set on the source node; the save collaborator has been
  called with the flat values and \<open>onFormSaved\<close> has been called after it. Nothing else
  has changed but \<open>forceErrorDisplay\<close>.
\<close>

theorem save_resolved:
  assumes "form (entity f) = Some fm" and "isValid api (node (entity f))"
  shows "save api (Resolved data) f =
           f\<lparr>forceErrorDisplay := True,
             isLoading := False,
             entity := \<lparr>node = sourceNode_set api data (node (entity f)),
                        form = Some (fm\<lparr>isEdit := False\<rparr>)\<rparr>,
             effects := effects f @ [CallSave (toFlatValues api (node (entity f))), OnFormSaved]\<rparr>"
  using assms by (simp add: save_def save_begin_def Let_def)

theorem save_resolved_witness:
  "form (entity (person_form ''Anna'')) = Some \<lparr>isEdit = True\<rparr> \<and>
   isValid person_api (node (entity (person_form ''Anna''))) \<and>
   isLoading (save person_api (Resolved saved_person :: (obj, rejection) settled)
      (person_form ''Anna'')) = False \<and>
   form (entity (save person_api (Resolved saved_person :: (obj, rejection) settled)
      (person_form ''Anna''))) = Some \<lparr>isEdit = False\<rparr> \<and>
   source_values (node (entity (save person_api
      (Resolved saved_person :: (obj, rejection) settled) (person_form ''Anna'')))) =
     [(''name'', Str ''Anna''), (''id'', Num 12)] \<and>
   effects (save person_api (Resolved saved_person :: (obj, rejection) settled)
      (person_form ''Anna'')) = [CallSave [(''name'', Str ''Anna'')], OnFormSaved]"
proof -
  note r = save_resolved [OF person_has_form person_valid, of saved_person]
  have src: "source_values (sourceNode_set person_api saved_person
       (node (entity (person_form ''Anna'')))) = [(''name'', Str ''Anna''), (''id'', Num 12)]"
    by (simp add: person_api_def specStore_def source_changed_def person_form_def
          person_entity_def person_node_def saved_person_def AList.merge_def)
  show ?thesis
    unfolding r using src person_flat person_effects person_has_form person_valid by simp
qed


subsection \<open>A save that is rejected\<close>

lemma legacy_validate_frame:
  "legacy_validate g = (g1, r) \<Longrightarrow>
     legacy_isEdit g1 = legacy_isEdit g \<and> legacy_isLoading g1 = legacy_isLoading g \<and>
     legacy_node g1 = legacy_node g \<and> errors g1 = errors g \<and>
     legacy_effects g1 = legacy_effects g"
  by (auto simp: legacy_validate_def split: prod.splits)

text \<open>
  In the earlier form too, the save service is called when and only when \<open>validate()\<close>
  returns true; a successful save ends edition and stores the answer.
\<close>

lemma legacy_gating:
  "(legacy_validate g = (g1, Inr False) \<longrightarrow> legacy_save api outcome g = g1) \<and>
   (legacy_validate g = (g1, Inr True) \<longrightarrow>
      legacy_save api (Resolved data) g =
        g1\<lparr>legacy_isLoading := False, legacy_isEdit := False,
           legacy_node := sourceNode_set api data (legacy_node g1),
           legacy_effects := legacy_effects g1 @
             [CallSave (toFlatValues api (legacy_node g1)),
              AddSuccessMessage ''detail.saved'', OnFormSaved]\<rparr>)"
  by (simp add: legacy_save_def legacy_save_begin_def)

lemma legacy_person_validate:
  "legacy_validate legacy_person_form =
     (legacy_person_form
        \<lparr>form_fields := [(''person.name'', Some \<lparr>showError = True, error = None\<rparr>)]\<rparr>,
      Inr True)"
  by (simp add: legacy_validate_def legacy_person_form_def has_error_def)

text \<open>
  C2, as it is stated, fails on its last part. In the form with the registry, the
  \<open>catch\<close> block of \<open>save()\<close> does not read what it caught: a rejection with
  \<open>fields = {email: "invalid"}\<close> leaves the form exactly as a rejection without
  \<open>fields\<close> does. In the earlier form, which has the map \<open>errors\<close>, the map of the
  rejection replaces it: the entry for \<open>name\<close> that was there is gone afterwards.
\<close>

theorem rejection_fields_counterexample:
  "save person_api (Rejected email_invalid :: (obj, rejection) settled) (person_form ''Anna'') =
     save person_api (Rejected no_details) (person_form ''Anna'') \<and>
   map_of (errors legacy_person_form) ''name'' = Some ''taken'' \<and>
   map_of (errors (legacy_save person_api (Rejected email_invalid) legacy_person_form)) ''name''
     = None"
proof -
  have a: "save person_api (Rejected email_invalid :: (obj, rejection) settled)
      (person_form ''Anna'') = save person_api (Rejected no_details) (person_form ''Anna'')"
    by (simp add: save_def split: prod.splits bool.splits)
  have b: "map_of (errors legacy_person_form) ''name'' = Some ''taken''"
    by (simp add: legacy_person_form_def)
  have c: "errors (legacy_save person_api (Rejected email_invalid) legacy_person_form) =
      [(''email'', ''invalid'')]"
    by (simp add: legacy_save_def legacy_save_begin_def legacy_person_validate email_invalid_def)
  show ?thesis using a b c by simp
qed

text \<open>
  C2, amended. When validation lets the save start and the promise of the save
  collaborator rejects, the form after \<open>save()\<close> is the form before it with
  \<open>forceErrorDisplay\<close> set, \<open>isLoading\<close> false and the call recorded: the entity, hence
  the edit flag and the values of the view model, is unchanged, and the result does not
  depend on the rejection. In the earlier form, after a rejected save \<open>isLoading\<close> is
  false, the edit flag and the node are unchanged, and \<open>errors\<close> is the \<open>fields\<close> map of
  the rejection when it has one, and unchanged otherwise.
\<close>

theorem save_rejected:
  "(form (entity f) = None \<or> isValid api (node (entity f)) \<longrightarrow>
      save api (Rejected e) f =
        f\<lparr>forceErrorDisplay := True, isLoading := False,
          effects := effects f @ [CallSave (toFlatValues api (node (entity f)))]\<rparr>) \<and>
   (legacy_validate g = (g1, Inr True) \<longrightarrow>
      legacy_save api (Rejected r) g =
        g1\<lparr>legacy_isLoading := False,
           errors := or_default (rej_fields r) (errors g1),
           legacy_effects :=
             legacy_effects g1 @ [CallSave (toFlatValues api (legacy_node g1))]\<rparr> \<and>
      legacy_isEdit g1 = legacy_isEdit g \<and> legacy_node g1 = legacy_node g \<and>
      errors g1 = errors g)"
proof (intro conjI impI)
  assume v: "form (entity f) = None \<or> isValid api (node (entity f))"
  show "save api (Rejected e) f =
        f\<lparr>forceErrorDisplay := True, isLoading := False,
          effects := effects f @ [CallSave (toFlatValues api (node (entity f)))]\<rparr>"
    by (simp add: save_def save_begin_valid [OF v])
next
  assume v: "legacy_validate g = (g1, Inr True)"
  then show "legacy_save api (Rejected r) g =
        g1\<lparr>legacy_isLoading := False,
           errors := or_default (rej_fields r) (errors g1),
           legacy_effects :=
             legacy_effects g1 @ [CallSave (toFlatValues api (legacy_node g1))]\<rparr>"
    by (simp add: legacy_save_def legacy_save_begin_def or_default_def Let_def
          split: option.splits)
next
  assume v: "legacy_validate g = (g1, Inr True)"
  show "legacy_isEdit g1 = legacy_isEdit g"
    using legacy_validate_frame [OF v] by simp
next
  assume v: "legacy_validate g = (g1, Inr True)"
  show "legacy_node g1 = legacy_node g"
    using legacy_validate_frame [OF v] by simp
next
  assume v: "legacy_validate g = (g1, Inr True)"
  show "errors g1 = errors g"
    using legacy_validate_frame [OF v] by simp
qed

theorem save_rejected_witness:
  "isValid person_api (node (entity (person_form ''Anna''))) \<and>
   save person_api (Rejected email_invalid :: (obj, rejection) settled) (person_form ''Anna'') =
     (person_form ''Anna'')\<lparr>forceErrorDisplay := True,
        effects := [CallSave [(''name'', Str ''Anna'')]]\<rparr> \<and>
   snd (legacy_validate legacy_person_form) = Inr True \<and>
   errors (legacy_save person_api (Rejected email_invalid) legacy_person_form) =
     [(''email'', ''invalid'')] \<and>
   legacy_isLoading (legacy_save person_api (Rejected email_invalid) legacy_person_form)
     = False \<and>
   legacy_isEdit (legacy_save person_api (Rejected email_invalid) legacy_person_form) = True"
proof -
  have new: "save person_api (Rejected email_invalid :: (obj, rejection) settled)
      (person_form ''Anna'') =
     (person_form ''Anna'')\<lparr>forceErrorDisplay := True,
        effects := [CallSave [(''name'', Str ''Anna'')]]\<rparr>"
    using save_rejected [where f = "person_form ''Anna''" and api = person_api
        and e = email_invalid, THEN conjunct1] person_valid person_flat
    by (simp add: person_form_def)
  note old = save_rejected [where g = legacy_person_form and api = person_api
        and r = email_invalid, THEN conjunct2, rule_format, OF legacy_person_validate]
  show ?thesis
    using new person_valid legacy_person_validate old
    by (simp add: or_default_def email_invalid_def legacy_person_form_def)
qed

subsection \<open>A save while another one is pending\<close>

text \<open>
  C6, as it is stated, fails: \<open>save()\<close> has no test of \<open>isLoading\<close>. After a first call
  of \<open>save()\<close> on the valid form, \<open>isLoading\<close> is true; a second call, made before the
  first promise has settled, calls the save collaborator again.
\<close>

theorem save_reentrant_counterexample:
  "isLoading (fst (save_begin person_api (person_form ''Anna''))) \<and>
   snd (save_begin person_api (fst (save_begin person_api (person_form ''Anna'')))) \<and>
   save_calls (fst (save_begin person_api (fst (save_begin person_api (person_form ''Anna'')))))
     = 2"
  using person_valid
  by (simp add: save_begin_def Let_def save_calls_def) (simp add: person_form_def)

text \<open>
  C6, amended. \<open>save()\<close> called while \<open>isLoading\<close> is true does what it does
  otherwise: it sets \<open>forceErrorDisplay\<close>; when validation reports no error it calls the
  save collaborator again, \<open>isLoading\<close> staying true; when validation reports an error
  it makes no call and changes nothing else.
\<close>

theorem save_ignores_isLoading:
  assumes "isLoading f"
  shows "save_begin api f =
     (if form (entity f) = None \<or> isValid api (node (entity f))
      then (f\<lparr>forceErrorDisplay := True,
               effects := effects f @ [CallSave (toFlatValues api (node (entity f)))]\<rparr>, True)
      else (f\<lparr>forceErrorDisplay := True\<rparr>, False))"
  using assms by (cases f) (simp add: save_begin_def Let_def)

theorem save_ignores_isLoading_witness:
  "isLoading (fst (save_begin person_api (person_form ''Anna''))) \<and>
   save_begin person_api (fst (save_begin person_api (person_form ''Anna''))) =
     ((person_form ''Anna'')\<lparr>forceErrorDisplay := True, isLoading := True,
        effects := [CallSave [(''name'', Str ''Anna'')], CallSave [(''name'', Str ''Anna'')]]\<rparr>,
      True)"
proof -
  have first: "save_begin person_api (person_form ''Anna'') =
      ((person_form ''Anna'')\<lparr>forceErrorDisplay := True, isLoading := True,
        effects := [CallSave [(''name'', Str ''Anna'')]]\<rparr>, True)"
    using person_valid person_flat
    by (simp add: save_begin_def Let_def) (simp add: person_form_def)
  have l: "isLoading (fst (save_begin person_api (person_form ''Anna'')))"
    by (simp add: first)
  show ?thesis
    using save_ignores_isLoading [OF l, of person_api] l person_valid person_flat
    by (simp add: first)
qed


section \<open>load\<close>

lemma person_glp:
  "getLoadParams (services (person_form nm)) = Some (\<lambda>u. Some [7])"
  "has_load (services (person_form nm))"
  by (simp_all add: person_form_def person_services_def)

text \<open>
  C4. Let \<open>getLoadParams\<close> and \<open>load\<close> be supplied. When \<open>getLoadParams()\<close> returns
  the array \<open>params\<close>, \<open>load()\<close> sets \<open>isLoading\<close>, clears the source node and calls
  the load collaborator with \<open>params\<close>; when that promise resolves with \<open>data\<close>, the
  run ends with \<open>data\<close> set on the cleared source node, \<open>isLoading\<close> false and
  \<open>onFormLoaded\<close> called last, and nothing else changed. When \<open>getLoadParams()\<close>
  returns \<open>undefined\<close>, \<open>load()\<close> leaves the form as it is and calls nothing.
\<close>

theorem load_defined_params:
  assumes "getLoadParams (services f) = Some glp" and "has_load (services f)"
  shows "(glp () = Some params \<longrightarrow>
            load_begin api f =
              (f\<lparr>isLoading := True,
                 entity := (entity f)\<lparr>node := sourceNode_clear api (node (entity f))\<rparr>,
                 effects := effects f @ [CallLoad params]\<rparr>, True) \<and>
            load api (Resolved data) f =
              (f\<lparr>isLoading := False,
                 entity := (entity f)\<lparr>node :=
                    sourceNode_set api data (sourceNode_clear api (node (entity f)))\<rparr>,
                 effects := effects f @ [CallLoad params, OnFormLoaded]\<rparr>, None)) \<and>
         (glp () = None \<longrightarrow> load api outcome f = (f, None))"
  using assms by (simp add: load_def load_begin_def)

theorem load_defined_params_witness:
  "getLoadParams (services (person_form ''Anna'')) = Some (\<lambda>u. Some [7]) \<and>
   has_load (services (person_form ''Anna'')) \<and>
   isLoading (fst (load_begin person_api (person_form ''Anna''))) \<and>
   effects (fst (load_begin person_api (person_form ''Anna''))) = [CallLoad [7]] \<and>
   source_values (node (entity (fst (load_begin person_api (person_form ''Anna''))))) =
     [(''name'', Undefined)] \<and>
   isLoading (fst (load person_api (Resolved saved_person :: (obj, rejection) settled)
     (person_form ''Anna''))) = False \<and>
   effects (fst (load person_api (Resolved saved_person :: (obj, rejection) settled)
     (person_form ''Anna''))) = [CallLoad [7], OnFormLoaded] \<and>
   source_values (node (entity (fst (load person_api
     (Resolved saved_person :: (obj, rejection) settled) (person_form ''Anna''))))) =
     [(''name'', Str ''Anna''), (''id'', Num 12)]"
proof -
  have r: "load_begin person_api (person_form ''Anna'') =
              ((person_form ''Anna'')\<lparr>isLoading := True,
                 entity := (entity (person_form ''Anna''))
                   \<lparr>node := sourceNode_clear person_api (node (entity (person_form ''Anna'')))\<rparr>,
                 effects := effects (person_form ''Anna'') @ [CallLoad [7]]\<rparr>, True) \<and>
            load person_api (Resolved saved_person :: (obj, rejection) settled)
                (person_form ''Anna'') =
              ((person_form ''Anna'')\<lparr>isLoading := False,
                 entity := (entity (person_form ''Anna''))\<lparr>node :=
                    sourceNode_set person_api saved_person
                      (sourceNode_clear person_api (node (entity (person_form ''Anna''))))\<rparr>,
                 effects := effects (person_form ''Anna'') @ [CallLoad [7], OnFormLoaded]\<rparr>,
               None)"
    using load_defined_params [OF person_glp, where params = "[7]" and api = person_api
          and data = saved_person, THEN conjunct1]
    by simp
  have clr: "source_values (sourceNode_clear person_api (node (entity (person_form ''Anna'')))) =
      [(''name'', Undefined)]"
    by (simp add: person_api_def specStore_def source_changed_def person_form_def
          person_entity_def person_node_def)
  have src: "source_values (sourceNode_set person_api saved_person
       (sourceNode_clear person_api (node (entity (person_form ''Anna''))))) =
       [(''name'', Str ''Anna''), (''id'', Num 12)]"
    by (simp add: person_api_def specStore_def source_changed_def person_form_def
          person_entity_def person_node_def saved_person_def AList.merge_def)
  show ?thesis
    using r clr src person_effects person_glp [of "''Anna''"] by simp
qed

text \<open>
  Whatever the form, a load whose promise rejects leaves \<open>isLoading\<close> true and the
  source node cleared, and \<open>load()\<close> rejects with the same reason.
\<close>

lemma load_rejected:
  assumes "getLoadParams (services f) = Some glp" and "has_load (services f)"
    and "glp () = Some params"
  shows "load api (Rejected e) f =
           (f\<lparr>isLoading := True,
              entity := (entity f)\<lparr>node := sourceNode_clear api (node (entity f))\<rparr>,
              effects := effects f @ [CallLoad params]\<rparr>, Some e)"
  using assms by (simp add: load_def load_begin_def)

text \<open>
  C5. The claim is that \<open>isLoading\<close> is reset to false when the promise of the load
  collaborator rejects. In \<open>load()\<close> nothing surrounds the \<open>await\<close>: on the form on a
  person, which is not loading, a load that is rejected leaves \<open>isLoading\<close> true, and
  the promise of \<open>load()\<close> rejects. (\<open>save()\<close> has the \<open>catch\<close> block that resets
  \<open>isLoading\<close>.)
\<close>

theorem load_rejected_stays_loading:
  "isLoading (person_form ''Anna'') = False \<and>
   isLoading (fst (load person_api (Rejected no_details :: (obj, rejection) settled)
      (person_form ''Anna''))) = True \<and>
   snd (load person_api (Rejected no_details :: (obj, rejection) settled)
      (person_form ''Anna'')) = Some no_details"
  by (simp add: load_def load_begin_def person_form_def person_services_def)


section \<open>The registry agrees with the forms\<close>

text \<open>Replacing the instance at a position by one with the same identifier.\<close>

lemma replace_instance:
  assumes d: "distinct (map formId fs)" and i: "i < length fs"
    and id: "formId f' = formId (fs ! i)"
  shows "(\<exists>x \<in> set (fs[i := f']). P x \<and> formId x = fid) \<longleftrightarrow>
           (if fid = formId f' then P f' else (\<exists>x \<in> set fs. P x \<and> formId x = fid))"
proof -
  have dfs: "distinct fs" and inj: "inj_on formId (set fs)"
    using d by (simp_all add: distinct_map)
  have s: "set (fs[i := f']) = insert f' (set fs - {fs ! i})"
    using dfs i by (rule set_update_distinct)
  have mem: "fs ! i \<in> set fs" using i by simp
  show ?thesis
  proof (cases "fid = formId f'")
    case True
    have "\<And>x. x \<in> set fs \<Longrightarrow> formId x = fid \<Longrightarrow> x = fs ! i"
      using inj mem True id by (auto dest: inj_onD)
    then show ?thesis using True s by auto
  next
    case False
    then have "formId (fs ! i) \<noteq> fid" using id by simp
    then show ?thesis using False s by auto
  qed
qed

lemma replace_instance_ids:
  assumes "i < length fs" and "formId f' = formId (fs ! i)"
  shows "map formId (fs[i := f']) = map formId fs"
  using assms by (simp add: map_update list_update_same_conv)


lemma editing_form_eq: "form (entity f') = form (entity f) \<Longrightarrow> editing f' = editing f"
  by (simp add: editing_def)

lemma classAutorun_map_of:
  assumes "mounted f' \<longrightarrow> form (entity f') \<noteq> None"
  shows "map_of (classAutorun f f' em) =
           (if mounted f' \<and> form (entity f') \<noteq> form (entity f)
            then (map_of em)(formId f' \<mapsto> editing f') else map_of em)"
  using assms
  by (auto simp: classAutorun_def updateApplicationStore_def editing_def update_conv'
           split: option.splits)

lemma classAutorun_distinct:
  "distinct (map fst em) \<Longrightarrow> distinct (map fst (classAutorun f f' em))"
  by (auto simp: classAutorun_def updateApplicationStore_def distinct_update
           split: option.splits)

lemma act_consistent:
  assumes c: "consistent w"
    and gid: "\<And>f. formId (g f) = formId f"
    and gm: "\<And>f. mounted (g f) = mounted f"
    and gf: "\<And>f. form (entity f) \<noteq> None \<Longrightarrow> form (entity (g f)) \<noteq> None"
  shows "consistent (act i g w)"
proof (cases "i < length (instances w)")
  case False
  then show ?thesis using c by (simp add: act_def)
next
  case True
  define fs where "fs = instances w"
  define f where "f = fs ! i"
  define f' where "f' = g f"
  define em where "em = editingMap w"
  have i: "i < length fs" using True by (simp add: fs_def)
  have d: "distinct (map formId fs)" and dem: "distinct (map fst em)"
    and reg: "\<And>fid b. map_of em fid = Some b \<longleftrightarrow>
                (\<exists>x \<in> set fs. (mounted x \<and> editing x = b) \<and> formId x = fid)"
    and fm: "\<And>x. x \<in> set fs \<Longrightarrow> mounted x \<Longrightarrow> form (entity x) \<noteq> None"
    using c by (auto simp: consistent_def fs_def em_def)
  have fin: "f \<in> set fs" using i by (simp add: f_def)
  have id: "formId f' = formId (fs ! i)" by (simp add: f'_def f_def gid)
  have mf: "mounted f' = mounted f" by (simp add: f'_def gm)
  have ff: "mounted f' \<longrightarrow> form (entity f') \<noteq> None"
    using fm [OF fin] gf [of f] mf by (auto simp: f'_def)
  have w': "act i g w = w\<lparr>editingMap := classAutorun f f' em, instances := fs[i := f']\<rparr>"
    using True by (simp add: act_def Let_def fs_def f_def f'_def em_def)
  have fself: "\<And>b. (\<exists>x \<in> set fs. (mounted x \<and> editing x = b) \<and> formId x = formId f) \<longleftrightarrow>
                  (mounted f \<and> editing f = b)"
  proof -
    fix b
    have "fs[i := f] = fs" by (simp add: f_def)
    then show "(\<exists>x \<in> set fs. (mounted x \<and> editing x = b) \<and> formId x = formId f) \<longleftrightarrow>
                  (mounted f \<and> editing f = b)"
      using replace_instance [OF d i, of f "\<lambda>x. mounted x \<and> editing x = b" "formId f"]
      by (simp add: f_def)
  qed
  have reg': "\<And>fid b. map_of (classAutorun f f' em) fid = Some b \<longleftrightarrow>
                (\<exists>x \<in> set (fs[i := f']). (mounted x \<and> editing x = b) \<and> formId x = fid)"
  proof -
    fix fid b
    show "map_of (classAutorun f f' em) fid = Some b \<longleftrightarrow>
                (\<exists>x \<in> set (fs[i := f']). (mounted x \<and> editing x = b) \<and> formId x = fid)"
    proof (cases "fid = formId f'")
      case False
      then show ?thesis
        using replace_instance [OF d i id, of "\<lambda>x. mounted x \<and> editing x = b" fid] reg [of fid b]
        by (simp add: classAutorun_map_of [OF ff])
    next
      case T: True
      have idf: "formId f' = formId f" using id by (simp add: f_def)
      show ?thesis
      proof (cases "mounted f' \<and> form (entity f') \<noteq> form (entity f)")
        case True
        then show ?thesis
          using replace_instance [OF d i id, of "\<lambda>x. mounted x \<and> editing x = b" fid] T
          by (auto simp: classAutorun_map_of [OF ff])
      next
        case False
        then have "mounted f' \<and> editing f' = b \<longleftrightarrow> mounted f \<and> editing f = b"
          using mf editing_form_eq [of f' f] by auto
        then show ?thesis
          using replace_instance [OF d i id, of "\<lambda>x. mounted x \<and> editing x = b" fid] T False
            reg [of fid b] fself [of b] idf
          by (auto simp: classAutorun_map_of [OF ff])
      qed
    qed
  qed
  have fm': "\<And>x. x \<in> set (fs[i := f']) \<Longrightarrow> mounted x \<Longrightarrow> form (entity x) \<noteq> None"
    using fm ff set_update_subset_insert [of fs i f'] by auto
  have reg'': "\<forall>fid b. map_of (classAutorun f f' em) fid = Some b \<longleftrightarrow>
                (\<exists>x \<in> set (fs[i := f']). mounted x \<and> formId x = fid \<and> editing x = b)"
    using reg' by blast
  have fm'': "\<forall>x \<in> set (fs[i := f']). mounted x \<longrightarrow> form (entity x) \<noteq> None"
    using fm' by blast
  show ?thesis
    unfolding w' consistent_def
    using classAutorun_distinct [OF dem] replace_instance_ids [OF i id] d reg'' fm''
    by simp
qed

lemma toggleEdit_frame:
  "toggleEdit api b f = Inr f' \<Longrightarrow>
     formId f' = formId f \<and> mounted f' = mounted f \<and> form (entity f') \<noteq> None"
  by (auto simp: toggleEdit_def Let_def split: option.splits)

lemma load_begin_frame:
  "formId (fst (load_begin api f)) = formId f \<and>
   mounted (fst (load_begin api f)) = mounted f \<and>
   form (entity (fst (load_begin api f))) = form (entity f)"
  by (simp add: load_begin_def split: option.splits)

lemma load_settle_frame:
  "formId (fst (load_settle api outcome f)) = formId f \<and>
   mounted (fst (load_settle api outcome f)) = mounted f \<and>
   form (entity (fst (load_settle api outcome f))) = form (entity f)"
  by (cases outcome) simp_all

lemma save_begin_frame:
  "formId (fst (save_begin api f)) = formId f \<and>
   mounted (fst (save_begin api f)) = mounted f \<and>
   form (entity (fst (save_begin api f))) = form (entity f)"
  by (simp add: save_begin_def Let_def)

lemma save_settle_frame:
  "formId (save_settle api outcome f) = formId f \<and>
   mounted (save_settle api outcome f) = mounted f \<and>
   (form (entity f) \<noteq> None \<longrightarrow> form (entity (save_settle api outcome f)) \<noteq> None)"
  by (cases outcome) (auto simp: Let_def split: option.splits)

lemma mount_consistent:
  fixes api :: "('n, 'd) storeApi" and w :: "('n, 'd, 'p) world"
  assumes c: "consistent w" and fresh: "fid \<notin> formId ` set (instances w)"
  shows "consistent (step api (Mount fid e svc) w)"
proof (cases "form e")
  case None
  then show ?thesis using c
    by (simp add: componentWillMount_def formInit_def new_form_def Let_def)
next
  case (Some fm)
  define f0 :: "('n, 'd, 'p) autoForm" where "f0 = formInit svc (new_form fid e)"
  define f1 where "f1 = f0\<lparr>entity := (entity f0)\<lparr>node := subscribe api (node (entity f0))\<rparr>,
                          mounted := True\<rparr>"
  define f2 where "f2 = fst (load_begin api f1)"
  have f1: "formId f1 = fid" "mounted f1" "form (entity f1) = Some fm"
    using Some by (simp_all add: f1_def f0_def formInit_def new_form_def)
  have f2: "formId f2 = fid" "mounted f2" "form (entity f2) = Some fm"
    using f1 load_begin_frame [of api f1] by (simp_all add: f2_def)
  have ed: "editing f2 = isEdit fm" using f2 by (simp add: editing_def)
  have w': "step api (Mount fid e svc) w =
      w\<lparr>editingMap := AList.update fid (isEdit fm) (editingMap w),
        instances := instances w @ [f2]\<rparr>"
    using Some
    by (simp add: componentWillMount_def Let_def f2_def f1_def f0_def formInit_def new_form_def)
  have old: "\<And>x. x \<in> set (instances w) \<Longrightarrow> formId x \<noteq> fid"
    using fresh by auto
  have dem: "distinct (map fst (editingMap w))" and d: "distinct (map formId (instances w))"
    and reg: "\<And>k b. map_of (editingMap w) k = Some b \<longleftrightarrow>
                (\<exists>x \<in> set (instances w). mounted x \<and> formId x = k \<and> editing x = b)"
    and fm: "\<forall>x \<in> set (instances w). mounted x \<longrightarrow> form (entity x) \<noteq> None"
    using c by (auto simp: consistent_def)
  have d': "distinct (map formId (instances w @ [f2]))"
    using d fresh f2 by simp
  have reg': "\<forall>k b. map_of (AList.update fid (isEdit fm) (editingMap w)) k = Some b \<longleftrightarrow>
                (\<exists>x \<in> set (instances w @ [f2]). mounted x \<and> formId x = k \<and> editing x = b)"
  proof (intro allI)
    fix k b
    show "map_of (AList.update fid (isEdit fm) (editingMap w)) k = Some b \<longleftrightarrow>
                (\<exists>x \<in> set (instances w @ [f2]). mounted x \<and> formId x = k \<and> editing x = b)"
    proof (cases "k = fid")
      case True
      then show ?thesis using f2 ed old by (auto simp: update_conv')
    next
      case False
      then show ?thesis using f2 reg [of k b] by (auto simp: update_conv')
    qed
  qed
  have fm': "\<forall>x \<in> set (instances w @ [f2]). mounted x \<longrightarrow> form (entity x) \<noteq> None"
    using fm f2 by simp
  show ?thesis
    unfolding w' consistent_def
    using dem d' reg' fm' by (simp add: distinct_update)
qed

lemma unmount_consistent:
  assumes c: "consistent w"
  shows "consistent (step api (Unmount i) w)"
proof (cases "i < length (instances w) \<and> mounted (instances w ! i)")
  case False
  then show ?thesis using c by auto
next
  case True
  define fs where "fs = instances w"
  define f where "f = fs ! i"
  define f' where "f' = snd (componentWillUnmount api (editingMap w) f)"
  define em where "em = editingMap w"
  have i: "i < length fs" using True by (simp add: fs_def)
  have d: "distinct (map formId fs)" and dem: "distinct (map fst em)"
    and reg: "\<And>fid b. map_of em fid = Some b \<longleftrightarrow>
                (\<exists>x \<in> set fs. (mounted x \<and> editing x = b) \<and> formId x = fid)"
    and fm: "\<And>x. x \<in> set fs \<Longrightarrow> mounted x \<Longrightarrow> form (entity x) \<noteq> None"
    using c by (auto simp: consistent_def fs_def em_def)
  have id: "formId f' = formId (fs ! i)" and nm: "\<not> mounted f'"
    by (simp_all add: f'_def f_def componentWillUnmount_def)
  have w': "step api (Unmount i) w =
      w\<lparr>editingMap := AList.delete (formId f) em, instances := fs[i := f']\<rparr>"
    using True by (simp add: componentWillUnmount_def fs_def f_def f'_def em_def)
  have reg': "\<forall>fid b. map_of (AList.delete (formId f) em) fid = Some b \<longleftrightarrow>
                (\<exists>x \<in> set (fs[i := f']). mounted x \<and> formId x = fid \<and> editing x = b)"
  proof (intro allI)
    fix fid b
    have "(\<exists>x \<in> set (fs[i := f']). (mounted x \<and> editing x = b) \<and> formId x = fid) \<longleftrightarrow>
            (if fid = formId f' then mounted f' \<and> editing f' = b
             else (\<exists>x \<in> set fs. (mounted x \<and> editing x = b) \<and> formId x = fid))"
      by (rule replace_instance [OF d i id])
    then show "map_of (AList.delete (formId f) em) fid = Some b \<longleftrightarrow>
                (\<exists>x \<in> set (fs[i := f']). mounted x \<and> formId x = fid \<and> editing x = b)"
      using nm id reg [of fid b] by (auto simp: delete_conv' f_def)
  qed
  have fm': "\<forall>x \<in> set (fs[i := f']). mounted x \<longrightarrow> form (entity x) \<noteq> None"
    using fm nm set_update_subset_insert [of fs i f'] by auto
  show ?thesis
    unfolding w' consistent_def
    using dem replace_instance_ids [OF i id] d reg' fm'
    by (simp add: distinct_delete)
qed

lemma step_consistent:
  assumes c: "consistent w"
    and fresh: "set (mount_ids [x]) \<inter> formId ` set (instances w) = {}"
  shows "consistent (step api x w)"
proof (cases x)
  case (Mount fid e svc)
  then show ?thesis using mount_consistent [OF c, of fid api e svc] fresh by simp
next
  case (Unmount i)
  then show ?thesis using unmount_consistent [OF c] by simp
next
  case (ToggleEdit i b)
  show ?thesis unfolding ToggleEdit step.simps
    by (rule act_consistent [OF c]) (auto split: sum.splits dest: toggleEdit_frame)
next
  case (Save i)
  show ?thesis unfolding Save step.simps
    by (rule act_consistent [OF c]) (simp_all add: save_begin_frame)
next
  case (SaveSettled i outcome)
  show ?thesis unfolding SaveSettled step.simps
    by (rule act_consistent [OF c]) (simp_all add: save_settle_frame)
next
  case (Load i)
  show ?thesis unfolding Load step.simps
    by (rule act_consistent [OF c]) (simp_all add: load_begin_frame)
next
  case (LoadSettled i outcome)
  show ?thesis unfolding LoadSettled step.simps
    by (rule act_consistent [OF c]) (simp_all add: load_settle_frame)
qed

lemma act_ids:
  "(\<And>f. formId (g f) = formId f) \<Longrightarrow> map formId (instances (act i g w)) = map formId (instances w)"
  by (simp add: act_def Let_def map_update list_update_same_conv)

lemma step_ids:
  "set (map formId (instances (step api x w))) \<subseteq> set (map formId (instances w)) \<union> set (mount_ids [x])"
proof (cases x)
  case (Mount fid e svc)
  then show ?thesis
    by (auto simp: componentWillMount_def Let_def formInit_def new_form_def load_begin_frame
             split: option.splits)
next
  case (Unmount i)
  have "map formId (instances (step api x w)) = map formId (instances w)"
    unfolding Unmount
    by (simp add: componentWillUnmount_def map_update list_update_same_conv)
  then show ?thesis by simp
next
  case (ToggleEdit i b)
  have "map formId (instances (step api x w)) = map formId (instances w)"
    unfolding ToggleEdit step.simps
    by (rule act_ids) (auto split: sum.splits dest: toggleEdit_frame)
  then show ?thesis by simp
next
  case (Save i)
  then show ?thesis by (simp add: act_ids save_begin_frame)
next
  case (SaveSettled i outcome)
  then show ?thesis by (simp add: act_ids save_settle_frame)
next
  case (Load i)
  then show ?thesis by (simp add: act_ids load_begin_frame)
next
  case (LoadSettled i outcome)
  then show ?thesis by (simp add: act_ids load_settle_frame)
qed

lemma mount_ids_Cons: "mount_ids (x # xs) = mount_ids [x] @ mount_ids xs"
  by (cases x) simp_all

lemma run_consistent:
  "consistent w \<Longrightarrow> distinct (mount_ids ops) \<Longrightarrow>
     set (mount_ids ops) \<inter> formId ` set (instances w) = {} \<Longrightarrow>
     consistent (run api ops w)"
proof (induction ops arbitrary: w)
  case Nil
  then show ?case by simp
next
  case (Cons x xs)
  have split: "mount_ids (x # xs) = mount_ids [x] @ mount_ids xs"
    by (rule mount_ids_Cons)
  have c1: "consistent (step api x w)"
    using Cons.prems split by (intro step_consistent) auto
  have d: "distinct (mount_ids xs)" using Cons.prems split by simp
  have "set (mount_ids xs) \<inter> formId ` set (instances (step api x w)) = {}"
    using step_ids [of api x w] Cons.prems split by auto
  then show ?case using Cons.IH [OF c1 d] by simp
qed

lemma empty_consistent: "consistent empty_world"
  by (simp add: consistent_def empty_world_def)

lemma consistent_isOneEdit:
  assumes "consistent w"
  shows "isOneEdit (editingMap w) = some_mounted_editing w"
proof -
  have d: "distinct (map fst (editingMap w))"
    and reg: "\<And>fid b. map_of (editingMap w) fid = Some b \<longleftrightarrow>
        (\<exists>f \<in> set (instances w). mounted f \<and> formId f = fid \<and> editing f = b)"
    using assms by (auto simp: consistent_def)
  have "isOneEdit (editingMap w) \<longleftrightarrow> (\<exists>fid. (fid, True) \<in> set (editingMap w))"
    by (force simp: isOneEdit_def list_ex_iff)
  also have "\<dots> \<longleftrightarrow> (\<exists>fid. map_of (editingMap w) fid = Some True)"
    using d by simp
  also have "\<dots> \<longleftrightarrow> (\<exists>f \<in> set (instances w). mounted f \<and> editing f)"
    using reg by auto
  finally show ?thesis by (simp add: some_mounted_editing_def list_ex_iff)
qed

text \<open>
  C7. Start with no form and let forms be mounted, unmounted and used in any order, each
  new form drawing an identifier that no earlier form drew. Then, after every step,
  \<open>isOneEdit\<close> is true exactly when some mounted form has its edit flag set, and the
  registry has an entry for an identifier exactly when a mounted form has that identifier,
  the entry being the current edit flag of that form: a form that is unmounted, in edition
  or not, has no entry any more.
\<close>

theorem registry_consistency:
  assumes "distinct (mount_ids ops)" and "w = run api ops empty_world"
  shows "isOneEdit (editingMap w) = some_mounted_editing w \<and>
         (\<forall>fid b. map_of (editingMap w) fid = Some b \<longleftrightarrow>
            (\<exists>f \<in> set (instances w). mounted f \<and> formId f = fid \<and> editing f = b))"
proof -
  have c: "consistent w"
    using assms run_consistent [OF empty_consistent, of ops api]
    by (simp add: empty_world_def)
  then show ?thesis using consistent_isOneEdit [OF c] by (simp add: consistent_def)
qed

text \<open>
  Two forms: after the first one has entered edition and has been unmounted, and the
  second one has entered edition, the registry holds the second form only.
\<close>

theorem registry_consistency_witness:
  "distinct (mount_ids two_forms) \<and>
   isOneEdit (editingMap (run person_api two_forms empty_world)) =
     some_mounted_editing (run person_api two_forms empty_world) \<and>
   map (\<lambda>f. (formId f, mounted f, editing f)) (instances (run person_api two_forms empty_world)) =
     [(''form-1'', False, True), (''form-2'', True, True)] \<and>
   map_of (editingMap (run person_api two_forms empty_world)) ''form-1'' = None \<and>
   map_of (editingMap (run person_api two_forms empty_world)) ''form-2'' = Some True"
proof -
  have d: "distinct (mount_ids two_forms)"
    by (simp add: two_forms_def)
  note t = registry_consistency [OF d refl, of person_api]
  have inst: "map (\<lambda>f. (formId f, mounted f, editing f))
       (instances (run person_api two_forms empty_world)) =
     [(''form-1'', False, True), (''form-2'', True, True)]"
    by (simp add: two_forms_def empty_world_def componentWillMount_def componentWillUnmount_def
        formInit_def new_form_def Let_def load_begin_def idle_services_def person_entity_def
        act_def toggleEdit_def classAutorun_def updateApplicationStore_def editing_def)
  have em: "editingMap (run person_api two_forms empty_world) = [(''form-2'', True)]"
    by (simp add: two_forms_def empty_world_def componentWillMount_def componentWillUnmount_def
        formInit_def new_form_def Let_def load_begin_def idle_services_def person_entity_def
        act_def toggleEdit_def classAutorun_def updateApplicationStore_def)
  show ?thesis
    using d t [THEN conjunct1] inst by (simp add: em)
qed

subsection \<open>toggleEdit and the registry\<close>

text \<open>
  C8. For a mounted form with its \<open>form\<close> facet, in an application whose registry
  agrees with its forms: \<open>toggleEdit(true)\<close> sets the edit flag and changes nothing else
  of the form; \<open>toggleEdit(false)\<close> clears the edit flag and calls \<open>reset()\<close> on the
  entity, and changes nothing else; after \<open>toggleEdit(b)\<close> the registry entry of the form
  is \<open>b\<close>, and the entries of the other identifiers are as before.
\<close>

theorem toggleEdit_effect:
  fixes w :: "('n, 'd, 'p) world" and api :: "('n, 'd) storeApi"
  assumes c: "consistent w" and i: "i < length (instances w)" and f: "f = instances w ! i"
    and m: "mounted f" and fm: "form (entity f) = Some fm"
  shows "toggleEdit api True f = Inr (f\<lparr>entity := (entity f)\<lparr>form := Some (fm\<lparr>isEdit := True\<rparr>)\<rparr>\<rparr>) \<and>
         toggleEdit api False f =
           Inr (f\<lparr>entity := (entity f)\<lparr>form := Some (fm\<lparr>isEdit := False\<rparr>),
                                        node := reset api (node (entity f))\<rparr>\<rparr>) \<and>
         map_of (editingMap (step api (ToggleEdit i b) w)) (formId f) = Some b \<and>
         (\<forall>k. k \<noteq> formId f \<longrightarrow>
            map_of (editingMap (step api (ToggleEdit i b) w)) k = map_of (editingMap w) k)"
proof (intro conjI allI impI)
  show "toggleEdit api True f = Inr (f\<lparr>entity := (entity f)\<lparr>form := Some (fm\<lparr>isEdit := True\<rparr>)\<rparr>\<rparr>)"
    using fm by (simp add: toggleEdit_def Let_def)
next
  show "toggleEdit api False f =
           Inr (f\<lparr>entity := (entity f)\<lparr>form := Some (fm\<lparr>isEdit := False\<rparr>),
                                        node := reset api (node (entity f))\<rparr>\<rparr>)"
    using fm by (simp add: toggleEdit_def Let_def)
next
  define g :: "('n, 'd, 'p) autoForm \<Rightarrow> ('n, 'd, 'p) autoForm"
    where "g = (\<lambda>f. case toggleEdit api b f of Inl err \<Rightarrow> f | Inr f' \<Rightarrow> f')"
  define f' where "f' = g f"
  have f'p: "mounted f'" "formId f' = formId f" "editing f' = b"
    using m fm by (auto simp: f'_def g_def toggleEdit_def Let_def editing_def)
  have st: "step api (ToggleEdit i b) w =
      w\<lparr>editingMap := classAutorun f f' (editingMap w), instances := (instances w)[i := f']\<rparr>"
    using i f by (simp add: act_def Let_def f'_def g_def)
  have c': "consistent (step api (ToggleEdit i b) w)"
    by (rule step_consistent [OF c]) simp
  have "f' \<in> set ((instances w)[i := f'])"
    using i by (rule set_update_memI)
  then have "f' \<in> set (instances (step api (ToggleEdit i b) w))"
    by (subst st) simp
  then have "\<exists>x \<in> set (instances (step api (ToggleEdit i b) w)).
      mounted x \<and> formId x = formId f \<and> editing x = b"
    using f'p by blast
  then show "map_of (editingMap (step api (ToggleEdit i b) w)) (formId f) = Some b"
    using c' by (simp add: consistent_def)
next
  fix k
  assume k: "k \<noteq> formId f"
  define g :: "('n, 'd, 'p) autoForm \<Rightarrow> ('n, 'd, 'p) autoForm"
    where "g = (\<lambda>f. case toggleEdit api b f of Inl err \<Rightarrow> f | Inr f' \<Rightarrow> f')"
  define f' where "f' = g f"
  have f'p: "mounted f'" "formId f' = formId f" "form (entity f') \<noteq> None"
    using m fm by (auto simp: f'_def g_def toggleEdit_def Let_def)
  have st: "step api (ToggleEdit i b) w =
      w\<lparr>editingMap := classAutorun f f' (editingMap w), instances := (instances w)[i := f']\<rparr>"
    using i f by (simp add: act_def Let_def f'_def g_def)
  have "map_of (classAutorun f f' (editingMap w)) k = map_of (editingMap w) k"
    using k f'p by (simp add: classAutorun_map_of)
  then show "map_of (editingMap (step api (ToggleEdit i b) w)) k = map_of (editingMap w) k"
    by (subst st) simp
qed

lemma one_form_world:
  "run person_api one_form empty_world =
     \<lparr>editingMap = [(''form-1'', True)],
      instances = [\<lparr>formId = ''form-1'', entity = person_entity ''Anna'' True,
                    services = idle_services, isLoading = False, forceErrorDisplay = False,
                    loadDisposer = Some Active, mounted = True, effects = []\<rparr>]\<rparr>"
  by (simp add: one_form_def empty_world_def componentWillMount_def formInit_def new_form_def
        Let_def load_begin_def idle_services_def person_entity_def person_api_def specStore_def
        person_node_def)

text \<open>
  The form in edition with the unsaved name \<open>Anna\<close>: \<open>toggleEdit(false)\<close> puts the
  name of the source, \<open>Ann\<close>, back into the view model, and the registry entry becomes
  false.
\<close>

theorem toggleEdit_effect_witness:
  "consistent (run person_api one_form empty_world) \<and>
   0 < length (instances (run person_api one_form empty_world)) \<and>
   mounted (instances (run person_api one_form empty_world) ! 0) \<and>
   form (entity (instances (run person_api one_form empty_world) ! 0)) = Some \<lparr>isEdit = True\<rparr> \<and>
   map_of (editingMap (step person_api (ToggleEdit 0 False :: (specNode, obj, nat, rejection) op)
      (run person_api one_form empty_world))) ''form-1'' = Some False \<and>
   (case toggleEdit person_api False (instances (run person_api one_form empty_world) ! 0) of
      Inl err \<Rightarrow> None
    | Inr f' \<Rightarrow> Some (vm_values (node (entity f')), form (entity f')))
     = Some ([(''name'', Str ''Ann'')], Some \<lparr>isEdit = False\<rparr>)"
proof -
  define w where "w = run person_api one_form empty_world"
  have c: "consistent w"
    unfolding w_def
    by (rule run_consistent [OF empty_consistent]) (simp_all add: one_form_def empty_world_def)
  have i: "0 < length (instances w)" and m: "mounted (instances w ! 0)"
    and fm: "form (entity (instances w ! 0)) = Some \<lparr>isEdit = True\<rparr>"
    and id: "formId (instances w ! 0) = ''form-1''"
    by (simp_all add: w_def one_form_world person_entity_def)
  note t = toggleEdit_effect [OF c i refl m fm, of person_api False]
  have reset: "vm_values (reset person_api (node (entity (instances w ! 0)))) = [(''name'', Str ''Ann'')]"
    by (simp add: w_def one_form_world)
       (simp add: person_entity_def person_node_def person_api_def specStore_def)
  show ?thesis
    using c i m fm t id reset unfolding w_def [symmetric]
    by simp
qed

end
